theory Spec2Isabelle
  imports Complex_Main
begin

section \<open>Configuration validation of the training tool\<close>

text \<open>
  The module \<^verbatim>\<open>TrainingState\<close> validates a loaded configuration
  (\<^verbatim>\<open>Record<string, any>\<close>) against the constant \<^verbatim>\<open>trainingStateSchema\<close>.
  The embedding below follows the TypeScript source function by function. What JavaScript
  does implicitly is written out: the \<^verbatim>\<open>typeof\<close> operator, the reading of a property
  that may be absent, the conversion of a value to a string inside a template literal
  (which throws for some values), and the comparison operators on numbers that may be
  \<^verbatim>\<open>NaN\<close> or infinite.
\<close>

subsection \<open>JavaScript values\<close>

text \<open>
  A JavaScript number is a double. The finite doubles are embedded in the reals, where
  the comparisons and \<^verbatim>\<open>Math.floor\<close> of the source are exact; \<^verbatim>\<open>NaN\<close> and the two
  infinities are values of their own. Negative zero is identified with zero.
\<close>

datatype jsnum = Finite real | NaN | PosInf | NegInf

text \<open>
  The values of type \<^verbatim>\<open>any\<close>, one constructor for every outcome of \<^verbatim>\<open>typeof\<close>.
  The validator does two things only with a value that is neither a number nor a string:
  it takes its \<^verbatim>\<open>typeof\<close> and converts it to a string. An object or a function is
  therefore represented by the outcome of that conversion: \<open>Some s\<close> when it yields
  the string \<open>s\<close>, \<open>None\<close> when it throws (as for \<^verbatim>\<open>Object.create(null)\<close>, or for an
  object whose \<^verbatim>\<open>toString\<close> and \<^verbatim>\<open>valueOf\<close> are not callable). A symbol is
  represented by its description.
\<close>

datatype jsvalue =
    JUndefined
  | JNull
  | JBoolean bool
  | JNumber jsnum
  | JString string
  | JBigInt int
  | JSymbol string
  | JObject "string option"
  | JFunction "string option"

fun typeof :: "jsvalue \<Rightarrow> string" where
  "typeof JUndefined = ''undefined''"
| "typeof JNull = ''object''"
| "typeof (JBoolean b) = ''boolean''"
| "typeof (JNumber n) = ''number''"
| "typeof (JString s) = ''string''"
| "typeof (JBigInt i) = ''bigint''"
| "typeof (JSymbol d) = ''symbol''"
| "typeof (JObject c) = ''object''"
| "typeof (JFunction c) = ''function''"

text \<open>
  What ends a call without a result. \<open>TypeError\<close> is the exception of a failed string
  conversion. \<open>IllTypedCall\<close> is not JavaScript's: the checkers of the schema are
  declared on \<^verbatim>\<open>number\<close> or \<^verbatim>\<open>string\<close>, TypeScript admits no call of them at
  another type, and the embedding does not model the coercions JavaScript would apply
  there; a checker applied outside its parameter type answers \<open>IllTypedCall\<close>.
  Lemma \<open>validateConfig_well_typed\<close> below shows that the validator never does so.
\<close>

datatype js_error = TypeError | IllTypedCall

subsection \<open>The environment\<close>

text \<open>
  Two operations are not code of the module: \<^verbatim>\<open>existsSync\<close> of the file system, and the
  conversion of a number to a string (\<^verbatim>\<open>Number.prototype.toString\<close>, used by string
  concatenation and by template literals). Both are parameters of the model.
\<close>

record env =
  existsSync :: "string \<Rightarrow> bool"
  numberToString :: "jsnum \<Rightarrow> string"

fun showNat :: "nat \<Rightarrow> string" where
  "showNat n =
     (if n < 10 then [''0123456789'' ! n]
      else showNat (n div 10) @ [''0123456789'' ! (n mod 10)])"

definition showInt :: "int \<Rightarrow> string" where
  "showInt i = (if i < 0 then CHR ''-'' # showNat (nat (- i)) else showNat (nat i))"

text \<open>
  \<^verbatim>\<open>`${v}`\<close> and \<^verbatim>\<open>'...' + v\<close>: the conversion of a value to a string. It throws a
  \<^verbatim>\<open>TypeError\<close> for a symbol and for an object without a string conversion.
\<close>

fun toString :: "env \<Rightarrow> jsvalue \<Rightarrow> js_error + string" where
  "toString env JUndefined = Inr ''undefined''"
| "toString env JNull = Inr ''null''"
| "toString env (JBoolean b) = Inr (if b then ''true'' else ''false'')"
| "toString env (JNumber n) = Inr (numberToString env n)"
| "toString env (JString s) = Inr s"
| "toString env (JBigInt i) = Inr (showInt i)"
| "toString env (JSymbol d) = Inl TypeError"
| "toString env (JObject c) = (case c of None \<Rightarrow> Inl TypeError | Some s \<Rightarrow> Inr s)"
| "toString env (JFunction c) = (case c of None \<Rightarrow> Inl TypeError | Some s \<Rightarrow> Inr s)"

subsection \<open>Comparisons and floor on numbers\<close>

text \<open>Every comparison with \<^verbatim>\<open>NaN\<close> is false.\<close>

fun js_lt :: "jsnum \<Rightarrow> jsnum \<Rightarrow> bool" where
  "js_lt NaN y = False"
| "js_lt x NaN = False"
| "js_lt (Finite a) (Finite b) = (a < b)"
| "js_lt (Finite a) PosInf = True"
| "js_lt (Finite a) NegInf = False"
| "js_lt PosInf y = False"
| "js_lt NegInf NegInf = False"
| "js_lt NegInf y = True"

definition js_gt :: "jsnum \<Rightarrow> jsnum \<Rightarrow> bool" where
  "js_gt x y = js_lt y x"

definition js_ge :: "jsnum \<Rightarrow> jsnum \<Rightarrow> bool" where
  "js_ge x y = (x \<noteq> NaN \<and> y \<noteq> NaN \<and> \<not> js_lt x y)"

fun math_floor :: "jsnum \<Rightarrow> jsnum" where
  "math_floor (Finite r) = Finite (of_int \<lfloor>r\<rfloor>)"
| "math_floor NaN = NaN"
| "math_floor PosInf = PosInf"
| "math_floor NegInf = NegInf"

subsection \<open>Schema entries\<close>

text \<open>\<^verbatim>\<open>ValidatedEntry<T>\<close>: \<^verbatim>\<open>{ valid: T }\<close> or \<^verbatim>\<open>{ error: string }\<close>.\<close>

datatype validated_entry = EntryValid jsvalue | EntryError string

text \<open>
  \<^verbatim>\<open>SchemaEntry<any>\<close>. The optional \<^verbatim>\<open>defaultValue\<close> is an option. \<^verbatim>\<open>check\<close> is a
  JavaScript function, so a call of it may end without a result.
\<close>

record schema_entry =
  type :: string
  isRequired :: bool
  defaultValue :: "jsvalue option"
  check :: "jsvalue \<Rightarrow> js_error + validated_entry"
  description :: string

type_synonym schema = "(string \<times> schema_entry) list"

text \<open>A checker declared as \<^verbatim>\<open>check(n: number)\<close>, and one declared on \<^verbatim>\<open>string\<close>.\<close>

definition numberCheck ::
  "(jsnum \<Rightarrow> validated_entry) \<Rightarrow> jsvalue \<Rightarrow> js_error + validated_entry" where
  "numberCheck f v = (case v of JNumber n \<Rightarrow> Inr (f n) | _ \<Rightarrow> Inl IllTypedCall)"

definition stringCheck ::
  "(string \<Rightarrow> validated_entry) \<Rightarrow> jsvalue \<Rightarrow> js_error + validated_entry" where
  "stringCheck f v = (case v of JString s \<Rightarrow> Inr (f s) | _ \<Rightarrow> Inl IllTypedCall)"

subsection \<open>The five checkers\<close>

definition winProbability_check :: "env \<Rightarrow> jsnum \<Rightarrow> validated_entry" where
  "winProbability_check env n =
     (if js_gt n (Finite 0) \<and> js_lt n (Finite 1) then EntryValid (JNumber n)
      else EntryError
        (''The probability must be strictly between 0 and 1, but was '' @ numberToString env n))"

definition fragmentLength_check :: "env \<Rightarrow> jsnum \<Rightarrow> validated_entry" where
  "fragmentLength_check env n =
     (if js_ge n (Finite 1) then EntryValid (JNumber (math_floor n))
      else EntryError
        (''The fragment length must be positive, but was '' @ numberToString env n))"

definition challengeIndex_check :: "env \<Rightarrow> jsnum \<Rightarrow> validated_entry" where
  "challengeIndex_check env n =
     (if js_ge n (Finite 0) then EntryValid (JNumber (math_floor n))
      else EntryError
        (''The challenge index must be non-negative (0-based), but was ''
           @ numberToString env n))"

definition challengeFile_check :: "env \<Rightarrow> string \<Rightarrow> validated_entry" where
  "challengeFile_check env relFilePath =
     (if existsSync env relFilePath then EntryValid (JString relFilePath)
      else EntryError
        (''Couldn't find the file '' @ [CHR 0x22] @ relFilePath @ [CHR 0x22] @ ''.''))"

definition maxAttempts_check :: "env \<Rightarrow> jsnum \<Rightarrow> validated_entry" where
  "maxAttempts_check env n =
     (if js_ge n (Finite 1) then EntryValid (JNumber (math_floor n))
      else EntryError
        (''Expected a positive integer number of attempts, but got ''
           @ numberToString env n @ ''.''))"

subsection \<open>The schema registry\<close>

text \<open>
  The object literal \<^verbatim>\<open>trainingStateSchema\<close>, as the list of its properties in the
  order of their declaration, which is the order in which \<^verbatim>\<open>for (let key in ...)\<close>
  enumerates them (none of the keys is an array index).
\<close>

definition trainingStateSchema :: "env \<Rightarrow> schema" where
  "trainingStateSchema env =
    [(''winProbability'',
        \<lparr> type = ''number'', isRequired = True,
          defaultValue = Some (JNumber (Finite 0.75)),
          check = numberCheck (winProbability_check env),
          description =
            ''Probability of winning on each challenge that the program should aim for.'' \<rparr>),
     (''fragmentLength'',
        \<lparr> type = ''number'', isRequired = True,
          defaultValue = Some (JNumber (Finite 40)),
          check = numberCheck (fragmentLength_check env),
          description = ''Maximum length of the text fragment in each round.'' \<rparr>),
     (''challengeIndex'',
        \<lparr> type = ''number'', isRequired = False,
          defaultValue = Some (JNumber (Finite 0)),
          check = numberCheck (challengeIndex_check env),
          description = ''Index of the current challenge.'' \<rparr>),
     (''challengeFile'',
        \<lparr> type = ''string'', isRequired = True,
          defaultValue = None,
          check = stringCheck (challengeFile_check env),
          description = ''Path to the file containing the textual data.'' \<rparr>),
     (''maxAttempts'',
        \<lparr> type = ''number'', isRequired = False,
          defaultValue = Some (JNumber (Finite 3)),
          check = numberCheck (maxAttempts_check env),
          description = ''Maximum number of attempts allowed on same fragment.'' \<rparr>)]"

subsection \<open>Validation of one entry\<close>

text \<open>
  \<^verbatim>\<open>schemaEntry.defaultValue!\<close>: the non-null assertion has no effect at run time; an
  entry without a default yields \<^verbatim>\<open>undefined\<close>.
\<close>

definition defaultValueBang :: "schema_entry \<Rightarrow> jsvalue" where
  "defaultValueBang e = (case defaultValue e of None \<Rightarrow> JUndefined | Some d \<Rightarrow> d)"

definition missingMessage :: "string \<Rightarrow> schema_entry \<Rightarrow> string" where
  "missingMessage key e =
     ''Missing required setting '' @ [CHR 0x27] @ key @ [CHR 0x27] @ '' of type '' @ type e
       @ '' ('' @ description e @ '')''"

definition invalidTypeMessage :: "string \<Rightarrow> schema_entry \<Rightarrow> string \<Rightarrow> string" where
  "invalidTypeMessage key e shown =
     ''Invalid type of '' @ key @ '', expected a '' @ type e @ '', but got: '' @ shown"

definition validateEntry ::
  "env \<Rightarrow> string \<Rightarrow> schema_entry \<Rightarrow> jsvalue \<Rightarrow> js_error + validated_entry" where
  "validateEntry env key schemaEntry entryValue =
     (if typeof entryValue = ''undefined'' then
        (if isRequired schemaEntry then Inr (EntryError (missingMessage key schemaEntry))
         else Inr (EntryValid (defaultValueBang schemaEntry)))
      else
        (if typeof entryValue = type schemaEntry then check schemaEntry entryValue
         else (case toString env entryValue of
                 Inl x \<Rightarrow> Inl x
               | Inr shown \<Rightarrow> Inr (EntryError (invalidTypeMessage key schemaEntry shown)))))"

subsection \<open>Validation of a configuration\<close>

text \<open>
  \<^verbatim>\<open>LoadedConfig\<close> is a partial map from property names to values; \<^verbatim>\<open>loadedConfig[key]\<close>
  is \<^verbatim>\<open>undefined\<close> for a key the object does not have. A key may also be present
  with the value \<^verbatim>\<open>undefined\<close>.
\<close>

type_synonym loaded_config = "string \<rightharpoonup> jsvalue"

definition getProperty :: "loaded_config \<Rightarrow> string \<Rightarrow> jsvalue" where
  "getProperty obj key = (case obj key of None \<Rightarrow> JUndefined | Some v \<Rightarrow> v)"

text \<open>
  The object \<^verbatim>\<open>result\<close> is built by assignments \<^verbatim>\<open>result[key] = v\<close>: a list of
  properties in insertion order; assigning to a key it has overwrites in place.
\<close>

type_synonym js_object = "(string \<times> jsvalue) list"

fun setProperty :: "js_object \<Rightarrow> string \<Rightarrow> jsvalue \<Rightarrow> js_object" where
  "setProperty [] key v = [(key, v)]"
| "setProperty ((k, w) # ps) key v =
     (if k = key then (k, v) # ps else (k, w) # setProperty ps key v)"

text \<open>\<^verbatim>\<open>ValidatedTrainingState\<close>: \<^verbatim>\<open>{ valid: TrainingState }\<close> or \<^verbatim>\<open>{ errors: string[] }\<close>.\<close>

datatype validated_training_state = StateValid js_object | StateErrors "string list"

text \<open>
  The loop of \<^verbatim>\<open>validateConfig\<close> over the entries of a schema, with the two local
  variables \<^verbatim>\<open>errors\<close> and \<^verbatim>\<open>result\<close> as accumulators. An exception of
  \<^verbatim>\<open>validateEntry\<close> leaves the loop and the function.
\<close>

fun validateLoop ::
  "env \<Rightarrow> schema \<Rightarrow> loaded_config \<Rightarrow> string list \<Rightarrow> js_object
     \<Rightarrow> js_error + (string list \<times> js_object)" where
  "validateLoop env [] loadedConfig errors result = Inr (errors, result)"
| "validateLoop env ((key, schemaEntry) # rest) loadedConfig errors result =
     (case validateEntry env key schemaEntry (getProperty loadedConfig key) of
        Inl x \<Rightarrow> Inl x
      | Inr (EntryError err) \<Rightarrow> validateLoop env rest loadedConfig (errors @ [err]) result
      | Inr (EntryValid v) \<Rightarrow>
          validateLoop env rest loadedConfig errors (setProperty result key v))"

text \<open>
  \<^verbatim>\<open>validateConfig\<close> with the schema as a parameter, and \<^verbatim>\<open>validateConfig\<close> itself,
  which reads the constant \<^verbatim>\<open>trainingStateSchema\<close>.
\<close>

definition validateAgainst ::
  "env \<Rightarrow> schema \<Rightarrow> loaded_config \<Rightarrow> js_error + validated_training_state" where
  "validateAgainst env sch loadedConfig =
     (case validateLoop env sch loadedConfig [] [] of
        Inl x \<Rightarrow> Inl x
      | Inr (errors, result) \<Rightarrow>
          (if length errors > 0 then Inr (StateErrors errors) else Inr (StateValid result)))"

definition validateConfig ::
  "env \<Rightarrow> loaded_config \<Rightarrow> js_error + validated_training_state" where
  "validateConfig env loadedConfig = validateAgainst env (trainingStateSchema env) loadedConfig"

subsection \<open>Notions used to state the properties\<close>

text \<open>
  The outcome of the entry validation that \<^verbatim>\<open>validateConfig\<close> performs for one
  entry of the schema, the error strings and the properties that this entry
  contributes, and whether the entry is invalid.
\<close>

definition fieldOutcome ::
  "env \<Rightarrow> loaded_config \<Rightarrow> string \<times> schema_entry \<Rightarrow> js_error + validated_entry" where
  "fieldOutcome env cfg ke = validateEntry env (fst ke) (snd ke) (getProperty cfg (fst ke))"

definition fieldErrors :: "env \<Rightarrow> loaded_config \<Rightarrow> string \<times> schema_entry \<Rightarrow> string list" where
  "fieldErrors env cfg ke =
     (case fieldOutcome env cfg ke of Inr (EntryError m) \<Rightarrow> [m] | _ \<Rightarrow> [])"

definition fieldValues :: "env \<Rightarrow> loaded_config \<Rightarrow> string \<times> schema_entry \<Rightarrow> js_object" where
  "fieldValues env cfg ke =
     (case fieldOutcome env cfg ke of Inr (EntryValid v) \<Rightarrow> [(fst ke, v)] | _ \<Rightarrow> [])"

definition fieldInvalid :: "env \<Rightarrow> loaded_config \<Rightarrow> string \<times> schema_entry \<Rightarrow> bool" where
  "fieldInvalid env cfg ke =
     (case fieldOutcome env cfg ke of Inr (EntryError m) \<Rightarrow> True | _ \<Rightarrow> False)"

fun errorsOf :: "validated_training_state \<Rightarrow> string list" where
  "errorsOf (StateErrors es) = es"
| "errorsOf (StateValid res) = []"

text \<open>The values whose conversion to a string does not throw.\<close>

definition stringifiable :: "jsvalue \<Rightarrow> bool" where
  "stringifiable v =
     (case v of JSymbol d \<Rightarrow> False | JObject c \<Rightarrow> c \<noteq> None | JFunction c \<Rightarrow> c \<noteq> None
      | _ \<Rightarrow> True)"

definition declaredKeys :: "string list" where
  "declaredKeys = [''winProbability'', ''fragmentLength'', ''challengeIndex'',
                   ''challengeFile'', ''maxAttempts'']"

text \<open>
  A schema in which the checker of one key is replaced. That a checker is not invoked
  is stated as: the validation yields the same with any checker in its place, also
  with one that throws whenever it is called.
\<close>

definition replaceCheck ::
  "string \<Rightarrow> (jsvalue \<Rightarrow> js_error + validated_entry) \<Rightarrow> schema \<Rightarrow> schema" where
  "replaceCheck key c sch =
     map (\<lambda>(k, e). if k = key then (k, e\<lparr>check := c\<rparr>) else (k, e)) sch"

definition throwingCheck :: "jsvalue \<Rightarrow> js_error + validated_entry" where
  "throwingCheck v = Inl TypeError"

subsection \<open>A sample environment and sample configurations\<close>

text \<open>
  The examples below run in an environment with one existing file,
  \<^verbatim>\<open>./example_text.txt\<close>, and with a printer of decimal numbers that agrees with
  JavaScript's on the numbers of the examples (integers and short decimal fractions).
\<close>

fun fractionDigits :: "nat \<Rightarrow> real \<Rightarrow> string" where
  "fractionDigits k r =
     (if k = 0 \<or> r \<le> 0 then []
      else (let d = nat \<lfloor>r * 10\<rfloor>
            in (''0123456789'' ! d) # fractionDigits (k - 1) (r * 10 - real d)))"

definition showDecimal :: "real \<Rightarrow> string" where
  "showDecimal r =
     (let a = \<bar>r\<bar>; i = nat \<lfloor>a\<rfloor>; f = a - real i
      in (if r < 0 then ''-'' else []) @ showNat i
           @ (if f = 0 then [] else CHR ''.'' # fractionDigits 17 f))"

fun sampleNumberToString :: "jsnum \<Rightarrow> string" where
  "sampleNumberToString (Finite r) = showDecimal r"
| "sampleNumberToString NaN = ''NaN''"
| "sampleNumberToString PosInf = ''Infinity''"
| "sampleNumberToString NegInf = ''-Infinity''"

definition sampleEnv :: env where
  "sampleEnv = \<lparr> existsSync = (\<lambda>p. p = ''./example_text.txt''),
                 numberToString = sampleNumberToString \<rparr>"

text \<open>The configuration that \<^verbatim>\<open>main.ts\<close> passes to \<^verbatim>\<open>validateConfig\<close>.\<close>

definition exampleConfig :: loaded_config where
  "exampleConfig = [''winProbability'' \<mapsto> JNumber (Finite 0.5),
                    ''fragmentLength'' \<mapsto> JNumber (Finite 80),
                    ''challengeFile'' \<mapsto> JString ''./example_text.txt'']"

text \<open>A configuration with three invalid settings.\<close>

definition badConfig :: loaded_config where
  "badConfig = [''winProbability'' \<mapsto> JNumber (Finite 1.5),
                ''fragmentLength'' \<mapsto> JNumber (Finite (-3)),
                ''challengeFile'' \<mapsto> JString ''./missing.txt'']"

text \<open>The configuration of \<^verbatim>\<open>main.ts\<close> without its \<^verbatim>\<open>challengeFile\<close>.\<close>

definition missingFileConfig :: loaded_config where
  "missingFileConfig = [''winProbability'' \<mapsto> JNumber (Finite 0.5),
                        ''fragmentLength'' \<mapsto> JNumber (Finite 80)]"

text \<open>
  Variants of \<open>exampleConfig\<close>: \<^verbatim>\<open>winProbability\<close> present with the value
  \<^verbatim>\<open>undefined\<close>; \<^verbatim>\<open>fragmentLength\<close> a string; \<^verbatim>\<open>maxAttempts\<close> a symbol.
\<close>

definition undefinedConfig :: loaded_config where
  "undefinedConfig = exampleConfig(''winProbability'' \<mapsto> JUndefined)"

definition mistypedConfig :: loaded_config where
  "mistypedConfig = exampleConfig(''fragmentLength'' \<mapsto> JString ''eighty'')"

definition symbolConfig :: loaded_config where
  "symbolConfig = exampleConfig(''maxAttempts'' \<mapsto> JSymbol ''three'')"

text \<open>
  A configuration with an invalid \<^verbatim>\<open>winProbability\<close> and a symbol under
  \<^verbatim>\<open>maxAttempts\<close>.
\<close>

definition lostErrorConfig :: loaded_config where
  "lostErrorConfig = exampleConfig(''winProbability'' \<mapsto> JNumber (Finite 1.5),
                                   ''maxAttempts'' \<mapsto> JSymbol ''three'')"

section \<open>Properties\<close>

subsection \<open>Evaluation of the examples\<close>

lemmas eval_defs =
  validateConfig_def validateAgainst_def trainingStateSchema_def
  validateEntry_def getProperty_def numberCheck_def stringCheck_def
  winProbability_check_def fragmentLength_check_def challengeFile_check_def
  challengeIndex_check_def maxAttempts_check_def defaultValueBang_def sampleEnv_def
  missingMessage_def invalidTypeMessage_def
  js_gt_def js_ge_def showDecimal_def Let_def fieldOutcome_def fieldErrors_def
  fieldValues_def fieldInvalid_def replaceCheck_def throwingCheck_def

subsection \<open>The loop of \<^verbatim>\<open>validateConfig\<close>\<close>

lemma setProperty_fresh: "key \<notin> fst ` set ps \<Longrightarrow> setProperty ps key v = ps @ [(key, v)]"
  by (induction ps) auto

lemma validateLoop_Inr:
  "validateLoop env sch cfg es res = Inr (es', res') \<Longrightarrow>
     es' = es @ concat (map (fieldErrors env cfg) sch)"
proof (induction sch arbitrary: es res)
  case Nil
  then show ?case by simp
next
  case (Cons ke sch)
  obtain k e where ke: "ke = (k, e)" by (cases ke)
  show ?case
  proof (cases "validateEntry env k e (getProperty cfg k)")
    case (Inl x)
    with Cons.prems ke show ?thesis by simp
  next
    case (Inr out)
    show ?thesis
    proof (cases out)
      case (EntryValid v)
      with Cons.prems ke Inr
      have "validateLoop env sch cfg es (setProperty res k v) = Inr (es', res')" by simp
      from Cons.IH [OF this] show ?thesis
        using ke Inr EntryValid by (simp add: fieldErrors_def fieldOutcome_def)
    next
      case (EntryError m)
      with Cons.prems ke Inr
      have "validateLoop env sch cfg (es @ [m]) res = Inr (es', res')" by simp
      from Cons.IH [OF this] show ?thesis
        using ke Inr EntryError by (simp add: fieldErrors_def fieldOutcome_def)
    qed
  qed
qed

lemma validateLoop_result:
  "validateLoop env sch cfg es res = Inr (es', res') \<Longrightarrow>
   distinct (map fst res @ map fst sch) \<Longrightarrow>
     res' = res @ concat (map (fieldValues env cfg) sch)"
proof (induction sch arbitrary: es res)
  case Nil
  then show ?case by simp
next
  case (Cons ke sch)
  obtain k e where ke: "ke = (k, e)" by (cases ke)
  from Cons.prems(2) ke have fresh: "k \<notin> fst ` set res" by auto
  show ?case
  proof (cases "validateEntry env k e (getProperty cfg k)")
    case (Inl x)
    with Cons.prems ke show ?thesis by simp
  next
    case (Inr out)
    show ?thesis
    proof (cases out)
      case (EntryValid v)
      with Cons.prems ke Inr
      have run: "validateLoop env sch cfg es (res @ [(k, v)]) = Inr (es', res')"
        by (simp add: setProperty_fresh [OF fresh])
      from Cons.prems(2) ke have "distinct (map fst (res @ [(k, v)]) @ map fst sch)" by auto
      from Cons.IH [OF run this] show ?thesis
        using ke Inr EntryValid by (simp add: fieldValues_def fieldOutcome_def)
    next
      case (EntryError m)
      with Cons.prems ke Inr
      have run: "validateLoop env sch cfg (es @ [m]) res = Inr (es', res')" by simp
      from Cons.prems(2) ke have "distinct (map fst res @ map fst sch)" by auto
      from Cons.IH [OF run this] show ?thesis
        using ke Inr EntryError by (simp add: fieldValues_def fieldOutcome_def)
    qed
  qed
qed

lemma validateLoop_Inl:
  "validateLoop env sch cfg es res = Inl x \<Longrightarrow> \<exists>ke \<in> set sch. fieldOutcome env cfg ke = Inl x"
proof (induction sch arbitrary: es res)
  case Nil
  then show ?case by simp
next
  case (Cons ke sch)
  then show ?case
    by (cases ke) (auto simp: fieldOutcome_def split: sum.splits validated_entry.splits)
qed

lemma validateLoop_outcomes:
  "validateLoop env sch cfg es res = Inr p \<Longrightarrow> ke \<in> set sch \<Longrightarrow> \<exists>out. fieldOutcome env cfg ke = Inr out"
proof (induction sch arbitrary: es res)
  case Nil
  then show ?case by simp
next
  case (Cons a sch)
  then show ?case
    by (cases a) (auto simp: fieldOutcome_def split: sum.splits validated_entry.splits)
qed

lemma validateLoop_cong:
  "(\<forall>k \<in> set (map fst sch). getProperty c1 k = getProperty c2 k) \<Longrightarrow>
     validateLoop env sch c1 es res = validateLoop env sch c2 es res"
proof (induction sch arbitrary: es res)
  case Nil
  then show ?case by simp
next
  case (Cons a sch)
  then show ?case
    by (cases a) (auto split: sum.splits validated_entry.splits)
qed

lemma length_fieldErrors:
  "length (concat (map (fieldErrors env cfg) sch)) = length (filter (fieldInvalid env cfg) sch)"
  by (induction sch)
     (auto simp: fieldErrors_def fieldInvalid_def split: sum.splits validated_entry.splits)


lemma fieldValues_lookup:
  "(k, e) \<in> set sch \<Longrightarrow> distinct (map fst sch) \<Longrightarrow> fieldValues env cfg (k, e) = [(k, v)] \<Longrightarrow>
     map_of (concat (map (fieldValues env cfg) sch)) k = Some v"
proof (induction sch)
  case Nil
  then show ?case by simp
next
  case (Cons a sch)
  obtain k' e' where a: "a = (k', e')" by (cases a)
  show ?case
  proof (cases "a = (k, e)")
    case True
    with Cons.prems show ?thesis by simp
  next
    case False
    with Cons.prems a have mem: "(k, e) \<in> set sch" and neq: "k' \<noteq> k" by force+
    from neq have "map_of (fieldValues env cfg (k', e')) k = None"
      by (auto simp: fieldValues_def split: sum.splits validated_entry.splits)
    moreover from Cons.IH [OF mem] Cons.prems
    have "map_of (concat (map (fieldValues env cfg) sch)) k = Some v" by simp
    ultimately show ?thesis using a by (simp add: map_add_def)
  qed
qed

lemma fieldErrors_member:
  "ke \<in> set sch \<Longrightarrow> fieldErrors env cfg ke = [m] \<Longrightarrow> m \<in> set (concat (map (fieldErrors env cfg) sch))"
  by force

lemma validateLoop_replaceCheck:
  assumes "\<And>e. (key, e) \<in> set sch \<Longrightarrow>
             validateEntry env key (e\<lparr>check := c\<rparr>) (getProperty cfg key)
               = validateEntry env key e (getProperty cfg key)"
  shows "validateLoop env (replaceCheck key c sch) cfg es res = validateLoop env sch cfg es res"
  using assms
proof (induction sch arbitrary: es res)
  case Nil
  then show ?case by (simp add: replaceCheck_def)
next
  case (Cons a sch)
  obtain k e where a: "a = (k, e)" by (cases a)
  have IH: "\<And>es res. validateLoop env (replaceCheck key c sch) cfg es res = validateLoop env sch cfg es res"
    using Cons.IH Cons.prems by simp
  show ?case
  proof (cases "k = key")
    case True
    with Cons.prems [of e] a
    have same: "validateEntry env k (e\<lparr>check := c\<rparr>) (getProperty cfg k)
            = validateEntry env k e (getProperty cfg k)" by simp
    from True have "replaceCheck key c (a # sch) = (k, e\<lparr>check := c\<rparr>) # replaceCheck key c sch"
      by (simp add: replaceCheck_def a)
    then have "validateLoop env (replaceCheck key c (a # sch)) cfg es res =
          validateLoop env ((k, e\<lparr>check := c\<rparr>) # replaceCheck key c sch) cfg es res"
      by simp
    also have "\<dots> = validateLoop env ((k, e) # sch) cfg es res"
      by (simp add: same IH split: sum.splits validated_entry.splits)
    finally show ?thesis by (simp only: a)
  next
    case False
    then have "replaceCheck key c (a # sch) = (k, e) # replaceCheck key c sch"
      by (simp add: replaceCheck_def a)
    then have "validateLoop env (replaceCheck key c (a # sch)) cfg es res =
          validateLoop env ((k, e) # replaceCheck key c sch) cfg es res"
      by simp
    also have "\<dots> = validateLoop env ((k, e) # sch) cfg es res"
      by (simp add: IH split: sum.splits validated_entry.splits)
    finally show ?thesis by (simp only: a)
  qed
qed

subsection \<open>Entries of the schema\<close>

lemma validateEntry_undefined:
  "validateEntry env k e JUndefined =
     (if isRequired e then Inr (EntryError (missingMessage k e))
      else Inr (EntryValid (defaultValueBang e)))"
  by (simp add: validateEntry_def)

lemma validateEntry_mismatch:
  "v \<noteq> JUndefined \<Longrightarrow> typeof v \<noteq> type e \<Longrightarrow>
     validateEntry env k e v =
       (case toString env v of Inl x \<Rightarrow> Inl x
        | Inr shown \<Rightarrow> Inr (EntryError (invalidTypeMessage k e shown)))"
  by (cases v) (simp_all add: validateEntry_def)

lemma optional_has_default:
  "(k, e) \<in> set (trainingStateSchema env) \<Longrightarrow> \<not> isRequired e \<Longrightarrow>
     \<exists>d. defaultValue e = Some d \<and> typeof d = type e"
  by (auto simp: trainingStateSchema_def)

lemma schema_keys: "map fst (trainingStateSchema env) = declaredKeys"
  by (simp add: trainingStateSchema_def declaredKeys_def)

lemma schema_distinct: "distinct (map fst (trainingStateSchema env))"
  by (simp add: schema_keys declaredKeys_def)

lemma toString_Inl: "toString env v = Inl x \<longleftrightarrow> x = TypeError \<and> \<not> stringifiable v"
  by (cases v) (auto simp: stringifiable_def split: option.splits)

lemma schema_entry_kinds:
  "(k, e) \<in> set (trainingStateSchema env) \<Longrightarrow>
     (type e = ''number'' \<and> (\<exists>f. check e = numberCheck f)) \<or>
     (type e = ''string'' \<and> (\<exists>f. check e = stringCheck f))"
  by (auto simp: trainingStateSchema_def)

lemma validateEntry_number_Inl:
  "type e = ''number'' \<Longrightarrow> check e = numberCheck f \<Longrightarrow>
     validateEntry env k e v = Inl x \<longleftrightarrow> x = TypeError \<and> \<not> stringifiable v"
  by (cases v) (auto simp: validateEntry_def numberCheck_def stringifiable_def split: option.splits)

lemma validateEntry_string_Inl:
  "type e = ''string'' \<Longrightarrow> check e = stringCheck f \<Longrightarrow>
     validateEntry env k e v = Inl x \<longleftrightarrow> x = TypeError \<and> \<not> stringifiable v"
  by (cases v) (auto simp: validateEntry_def stringCheck_def stringifiable_def split: option.splits)

lemma fieldOutcome_Inl:
  assumes "ke \<in> set (trainingStateSchema env)"
  shows "fieldOutcome env cfg ke = Inl x \<longleftrightarrow> x = TypeError \<and> \<not> stringifiable (getProperty cfg (fst ke))"
proof -
  obtain k e where ke: "ke = (k, e)" by (cases ke)
  from schema_entry_kinds [of k e env] assms ke show ?thesis
    by (auto simp: fieldOutcome_def validateEntry_number_Inl validateEntry_string_Inl)
qed

subsection \<open>When \<^verbatim>\<open>validateConfig\<close> returns\<close>

lemma validateLoop_total:
  "(\<forall>ke \<in> set sch. \<exists>out. fieldOutcome env cfg ke = Inr out) \<Longrightarrow>
     \<exists>p. validateLoop env sch cfg es res = Inr p"
proof (induction sch arbitrary: es res)
  case Nil
  then show ?case by simp
next
  case (Cons a sch)
  then show ?case
    by (cases a) (auto simp: fieldOutcome_def split: sum.splits validated_entry.splits)
qed

lemma validateAgainst_Inr:
  assumes "validateAgainst env sch cfg = Inr r"
  shows "errorsOf r = concat (map (fieldErrors env cfg) sch)"
    and "errorsOf r \<noteq> [] \<Longrightarrow> r = StateErrors (errorsOf r)"
    and "distinct (map fst sch) \<Longrightarrow> errorsOf r = [] \<Longrightarrow>
           r = StateValid (concat (map (fieldValues env cfg) sch))"
    and "ke \<in> set sch \<Longrightarrow> \<exists>out. fieldOutcome env cfg ke = Inr out"
proof -
  from assms obtain es res where run: "validateLoop env sch cfg [] [] = Inr (es, res)"
    by (auto simp: validateAgainst_def split: sum.splits)
  with assms have r: "r = (if es \<noteq> [] then StateErrors es else StateValid res)"
    by (auto simp: validateAgainst_def split: if_splits)
  from validateLoop_Inr [OF run] have es: "es = concat (map (fieldErrors env cfg) sch)" by simp
  from r have eo: "errorsOf r = es" by (cases es) auto
  with es show "errorsOf r = concat (map (fieldErrors env cfg) sch)" by simp
  from r eo show "r = StateErrors (errorsOf r)" if "errorsOf r \<noteq> []"
    using that by simp
  show "r = StateValid (concat (map (fieldValues env cfg) sch))"
    if "distinct (map fst sch)" "errorsOf r = []"
  proof -
    from that(1) have "distinct (map fst ([]::js_object) @ map fst sch)" by simp
    from validateLoop_result [OF run this] have "res = concat (map (fieldValues env cfg) sch)" by simp
    with r eo that(2) show ?thesis by simp
  qed
  show "\<exists>out. fieldOutcome env cfg ke = Inr out" if "ke \<in> set sch"
    using validateLoop_outcomes [OF run that] .
qed

lemma validateAgainst_Inl:
  "validateAgainst env sch cfg = Inl x \<Longrightarrow> \<exists>ke \<in> set sch. fieldOutcome env cfg ke = Inl x"
  by (auto simp: validateAgainst_def split: sum.splits prod.splits if_splits dest: validateLoop_Inl)

lemma validateAgainst_total:
  "(\<forall>ke \<in> set sch. \<exists>out. fieldOutcome env cfg ke = Inr out) \<Longrightarrow>
     \<exists>r. validateAgainst env sch cfg = Inr r"
  using validateLoop_total [of sch env cfg "[]" "[]"]
  by (auto simp: validateAgainst_def)

lemma validateConfig_returns_iff:
  "(\<exists>r. validateConfig env cfg = Inr r) \<longleftrightarrow> (\<forall>k \<in> set declaredKeys. stringifiable (getProperty cfg k))"
proof
  assume "\<exists>r. validateConfig env cfg = Inr r"
  then obtain r where r: "validateAgainst env (trainingStateSchema env) cfg = Inr r"
    by (auto simp: validateConfig_def)
  show "\<forall>k \<in> set declaredKeys. stringifiable (getProperty cfg k)"
  proof
    fix k assume "k \<in> set declaredKeys"
    then have "k \<in> set (map fst (trainingStateSchema env))" by (simp add: schema_keys)
    then obtain e where ke: "(k, e) \<in> set (trainingStateSchema env)" by auto
    from validateAgainst_Inr(4) [OF r ke] obtain out where "fieldOutcome env cfg (k, e) = Inr out" ..
    then have "fieldOutcome env cfg (k, e) \<noteq> Inl TypeError" by simp
    with fieldOutcome_Inl [OF ke, of cfg TypeError] show "stringifiable (getProperty cfg k)" by simp
  qed
next
  assume safe: "\<forall>k \<in> set declaredKeys. stringifiable (getProperty cfg k)"
  have "\<forall>ke \<in> set (trainingStateSchema env). \<exists>out. fieldOutcome env cfg ke = Inr out"
  proof
    fix ke assume ke: "ke \<in> set (trainingStateSchema env)"
    then have "fst ke \<in> set (map fst (trainingStateSchema env))" by simp
    then have "fst ke \<in> set declaredKeys" by (simp add: schema_keys)
    with safe have "stringifiable (getProperty cfg (fst ke))" by simp
    with fieldOutcome_Inl [OF ke] have "\<And>x. fieldOutcome env cfg ke \<noteq> Inl x" by simp
    then show "\<exists>out. fieldOutcome env cfg ke = Inr out" by (cases "fieldOutcome env cfg ke") auto
  qed
  from validateAgainst_total [OF this] show "\<exists>r. validateConfig env cfg = Inr r"
    by (simp add: validateConfig_def)
qed

lemma validateConfig_Inl:
  "validateConfig env cfg = Inl x \<Longrightarrow> x = TypeError"
  by (auto simp: validateConfig_def fieldOutcome_Inl dest!: validateAgainst_Inl)

lemma validateConfig_well_typed: "validateConfig env cfg \<noteq> Inl IllTypedCall"
  using validateConfig_Inl [of env cfg IllTypedCall] by auto

subsection \<open>Consequences for \<^verbatim>\<open>validateConfig\<close>\<close>

lemma validateAgainst_replaceCheck:
  assumes "\<And>e. (key, e) \<in> set sch \<Longrightarrow>
             validateEntry env key (e\<lparr>check := c\<rparr>) (getProperty cfg key)
               = validateEntry env key e (getProperty cfg key)"
  shows "validateAgainst env (replaceCheck key c sch) cfg = validateAgainst env sch cfg"
  using validateLoop_replaceCheck [of key sch env c cfg, OF assms]
  by (simp add: validateAgainst_def)

lemma validateConfig_error_member:
  assumes "ke \<in> set (trainingStateSchema env)" and "fieldErrors env cfg ke = [m]"
    and "validateConfig env cfg = Inr r"
  shows "\<exists>es. r = StateErrors es \<and> m \<in> set es"
proof -
  from assms(3) have r: "validateAgainst env (trainingStateSchema env) cfg = Inr r"
    by (simp add: validateConfig_def)
  note facts = validateAgainst_Inr [OF r]
  from fieldErrors_member [OF assms(1) assms(2)] facts(1)
  have mem: "m \<in> set (errorsOf r)" by simp
  then have "errorsOf r \<noteq> []" by auto
  from facts(2) [OF this] mem show ?thesis by (cases r) auto
qed

lemma validateConfig_value_lookup:
  assumes "(k, e) \<in> set (trainingStateSchema env)" and "fieldValues env cfg (k, e) = [(k, v)]"
    and "validateConfig env cfg = Inr (StateValid res)"
  shows "map_of res k = Some v"
proof -
  from assms(3) have r: "validateAgainst env (trainingStateSchema env) cfg = Inr (StateValid res)"
    by (simp add: validateConfig_def)
  from validateAgainst_Inr(3) [OF r schema_distinct]
  have "res = concat (map (fieldValues env cfg) (trainingStateSchema env))" by simp
  with fieldValues_lookup [OF assms(1) schema_distinct assms(2)] show ?thesis by simp
qed


lemma validateEntry_defaultValue_unused:
  "isRequired e \<Longrightarrow> validateEntry env k (e\<lparr>defaultValue := d\<rparr>) v = validateEntry env k e v"
  by (simp add: validateEntry_def missingMessage_def invalidTypeMessage_def split: sum.splits)

section \<open>The claims\<close>

subsection \<open>C1: every field is evaluated, every error is collected\<close>

text \<open>
  Claim C1 says that for every raw mapping \<^verbatim>\<open>validateConfig\<close> evaluates every field of
  the schema registry without short-circuiting, so that a mapping with \<open>N\<close> invalid
  fields yields exactly \<open>N\<close> error strings in the order of the schema. In
  \<open>lostErrorConfig\<close> the field winProbability is invalid on its own, with the error
  of its checker, and it is the only invalid field; the later field maxAttempts holds
  a symbol, whose conversion to a string in the type-mismatch branch of
  \<^verbatim>\<open>validateEntry\<close> throws. The exception leaves the loop: \<^verbatim>\<open>validateConfig\<close> ends with
  \<^verbatim>\<open>TypeError\<close>, and the error already collected for winProbability is lost with it.
\<close>

theorem validateConfig_exception_discards_errors:
  "fieldInvalid sampleEnv lostErrorConfig (trainingStateSchema sampleEnv ! 0)
   \<and> fieldErrors sampleEnv lostErrorConfig (trainingStateSchema sampleEnv ! 0)
       = [''The probability must be strictly between 0 and 1, but was 1.5'']
   \<and> length (filter (fieldInvalid sampleEnv lostErrorConfig) (trainingStateSchema sampleEnv)) = 1
   \<and> validateConfig sampleEnv lostErrorConfig = Inl TypeError"
  by (simp add: eval_defs lostErrorConfig_def exampleConfig_def)

text \<open>
  Apart from that exception the loop does what the claim describes: for a raw mapping in
  which the entry validation of every declared field yields \<^verbatim>\<open>{ valid }\<close> or
  \<^verbatim>\<open>{ error }\<close>, \<^verbatim>\<open>validateConfig\<close> returns, and the errors of its result are exactly
  the error strings of the invalid fields, one for each, in the order in which the schema
  declares the fields.
\<close>

lemma validateConfig_collects_every_error:
  assumes "\<forall>ke \<in> set (trainingStateSchema env). \<exists>out. fieldOutcome env cfg ke = Inr out"
  shows "\<exists>r. validateConfig env cfg = Inr r
           \<and> errorsOf r = concat (map (fieldErrors env cfg) (trainingStateSchema env))
           \<and> length (errorsOf r) = length (filter (fieldInvalid env cfg) (trainingStateSchema env))
           \<and> (errorsOf r \<noteq> [] \<longrightarrow> r = StateErrors (errorsOf r))
           \<and> map fst (trainingStateSchema env) =
               [''winProbability'', ''fragmentLength'', ''challengeIndex'',
                ''challengeFile'', ''maxAttempts'']"
proof -
  from validateAgainst_total [OF assms] obtain r
    where r: "validateAgainst env (trainingStateSchema env) cfg = Inr r" ..
  note facts = validateAgainst_Inr [OF r]
  show ?thesis
  proof (rule exI [of _ r], intro conjI impI)
    show "validateConfig env cfg = Inr r" using r by (simp add: validateConfig_def)
    show "errorsOf r = concat (map (fieldErrors env cfg) (trainingStateSchema env))"
      by (rule facts(1))
    show "length (errorsOf r) = length (filter (fieldInvalid env cfg) (trainingStateSchema env))"
      by (simp only: facts(1) length_fieldErrors)
    show "r = StateErrors (errorsOf r)" if "errorsOf r \<noteq> []"
      using that by (rule facts(2))
    show "map fst (trainingStateSchema env) =
               [''winProbability'', ''fragmentLength'', ''challengeIndex'',
                ''challengeFile'', ''maxAttempts'']"
      by (simp add: schema_keys declaredKeys_def)
  qed
qed

text \<open>
  The three invalid settings of \<open>badConfig\<close> yield three errors, in the order of the
  schema; challengeIndex and maxAttempts, which lie between and after them, are
  evaluated as well and are valid.
\<close>

lemma validateConfig_collects_every_error_example:
  "length (filter (fieldInvalid sampleEnv badConfig) (trainingStateSchema sampleEnv)) = 3
   \<and> validateConfig sampleEnv badConfig = Inr (StateErrors
       [''The probability must be strictly between 0 and 1, but was 1.5'',
        ''The fragment length must be positive, but was -3'',
        ''Couldn't find the file '' @ [CHR 0x22] @ ''./missing.txt'' @ [CHR 0x22] @ ''.''])"
proof -
  have each: "\<forall>ke \<in> set (trainingStateSchema sampleEnv).
      \<exists>out. fieldOutcome sampleEnv badConfig ke = Inr out"
    by (simp add: eval_defs badConfig_def)
  have count: "length (filter (fieldInvalid sampleEnv badConfig) (trainingStateSchema sampleEnv)) = 3"
    by (simp add: eval_defs badConfig_def)
  have errs: "concat (map (fieldErrors sampleEnv badConfig) (trainingStateSchema sampleEnv)) =
       [''The probability must be strictly between 0 and 1, but was 1.5'',
        ''The fragment length must be positive, but was -3'',
        ''Couldn't find the file '' @ [CHR 0x22] @ ''./missing.txt'' @ [CHR 0x22] @ ''.'']"
    by (simp add: eval_defs badConfig_def)
  from validateConfig_collects_every_error [OF each] obtain r where
    "validateConfig sampleEnv badConfig = Inr r"
    "errorsOf r = concat (map (fieldErrors sampleEnv badConfig) (trainingStateSchema sampleEnv))"
    "errorsOf r \<noteq> [] \<longrightarrow> r = StateErrors (errorsOf r)"
    by blast
  with errs count show ?thesis by simp
qed

subsection \<open>C2: the two shapes of the result\<close>



subsection \<open>C3: default values in the schema registry\<close>

text \<open>
  Claim C3 says that a required entry of the schema registry carries no
  \<^verbatim>\<open>defaultValue\<close>. The entries of winProbability and fragmentLength are required and
  carry one.
\<close>

theorem required_entry_with_default_counterexample:
  "map_option isRequired (map_of (trainingStateSchema sampleEnv) ''winProbability'') = Some True
   \<and> map_option defaultValue (map_of (trainingStateSchema sampleEnv) ''winProbability'')
        = Some (Some (JNumber (Finite 0.75)))
   \<and> map_option isRequired (map_of (trainingStateSchema sampleEnv) ''fragmentLength'') = Some True
   \<and> map_option defaultValue (map_of (trainingStateSchema sampleEnv) ''fragmentLength'')
        = Some (Some (JNumber (Finite 40)))"
  by (simp add: trainingStateSchema_def)

text \<open>
  Claim C3, amended. In the schema registry, every field schema with
  \<^verbatim>\<open>isRequired = false\<close> carries a \<^verbatim>\<open>defaultValue\<close> of the declared type. A field schema
  with \<^verbatim>\<open>isRequired = true\<close> may carry one too: winProbability carries 0.75 and
  fragmentLength carries 40, challengeFile carries none; the entry validation never reads
  the \<^verbatim>\<open>defaultValue\<close> of a required field.
\<close>

theorem schema_default_values:
  "(\<forall>(k, e) \<in> set (trainingStateSchema env).
      \<not> isRequired e \<longrightarrow> (\<exists>d. defaultValue e = Some d \<and> typeof d = type e))
   \<and> (\<forall>(k, e) \<in> set (trainingStateSchema env).
      isRequired e \<longrightarrow>
        (k = ''winProbability'' \<and> defaultValue e = Some (JNumber (Finite 0.75))) \<or>
        (k = ''fragmentLength'' \<and> defaultValue e = Some (JNumber (Finite 40))) \<or>
        (k = ''challengeFile'' \<and> defaultValue e = None))
   \<and> (\<forall>(k, e) \<in> set (trainingStateSchema env).
      isRequired e \<longrightarrow>
        (\<forall>d v. validateEntry env k (e\<lparr>defaultValue := d\<rparr>) v = validateEntry env k e v))"
proof (intro conjI)
  show "\<forall>(k, e) \<in> set (trainingStateSchema env).
      \<not> isRequired e \<longrightarrow> (\<exists>d. defaultValue e = Some d \<and> typeof d = type e)"
    using optional_has_default by blast
  show "\<forall>(k, e) \<in> set (trainingStateSchema env).
      isRequired e \<longrightarrow>
        (k = ''winProbability'' \<and> defaultValue e = Some (JNumber (Finite 0.75))) \<or>
        (k = ''fragmentLength'' \<and> defaultValue e = Some (JNumber (Finite 40))) \<or>
        (k = ''challengeFile'' \<and> defaultValue e = None)"
    by (simp add: trainingStateSchema_def)
  show "\<forall>(k, e) \<in> set (trainingStateSchema env).
      isRequired e \<longrightarrow>
        (\<forall>d v. validateEntry env k (e\<lparr>defaultValue := d\<rparr>) v = validateEntry env k e v)"
    by (simp add: validateEntry_defaultValue_unused split: prod.splits)
qed

theorem schema_default_values_witness:
  "\<not> isRequired (snd (trainingStateSchema sampleEnv ! 4))
   \<and> defaultValue (snd (trainingStateSchema sampleEnv ! 4)) = Some (JNumber (Finite 3))
   \<and> typeof (JNumber (Finite 3)) = type (snd (trainingStateSchema sampleEnv ! 4))
   \<and> isRequired (snd (trainingStateSchema sampleEnv ! 0))
   \<and> validateEntry sampleEnv ''winProbability''
        (snd (trainingStateSchema sampleEnv ! 0)\<lparr>defaultValue := None\<rparr>) JUndefined
      = validateEntry sampleEnv ''winProbability'' (snd (trainingStateSchema sampleEnv ! 0)) JUndefined"
proof -
  let ?m = "snd (trainingStateSchema sampleEnv ! 4)"
  let ?w = "snd (trainingStateSchema sampleEnv ! 0)"
  have mem: "(''maxAttempts'', ?m) \<in> set (trainingStateSchema sampleEnv)"
    "(''winProbability'', ?w) \<in> set (trainingStateSchema sampleEnv)"
    by (simp_all add: trainingStateSchema_def)
  have flags: "\<not> isRequired ?m" "isRequired ?w"
    "defaultValue ?m = Some (JNumber (Finite 3))"
    by (simp_all add: trainingStateSchema_def)
  note all = schema_default_values [of sampleEnv]
  from bspec [OF all [THEN conjunct1] mem(1)] flags(1)
  have "\<exists>d. defaultValue ?m = Some d \<and> typeof d = type ?m" by simp
  moreover from bspec [OF all [THEN conjunct2, THEN conjunct2] mem(2)] flags(2)
  have "validateEntry sampleEnv ''winProbability'' (?w\<lparr>defaultValue := None\<rparr>) JUndefined
      = validateEntry sampleEnv ''winProbability'' ?w JUndefined"
    by simp
  ultimately show ?thesis using flags by auto
qed

subsection \<open>C4: a required key that is absent\<close>

text \<open>
  Claim C4. For every declared key that is required and every raw mapping in which the key
  is absent, the entry validation that \<^verbatim>\<open>validateConfig\<close> performs for the key yields
  exactly the error \<^verbatim>\<open>Missing required setting '<key>' of type <type> (<description>)\<close>,
  whatever checker the entry has: the checker is not invoked, neither in the entry
  validation nor in \<^verbatim>\<open>validateConfig\<close> as a whole. Every result of \<^verbatim>\<open>validateConfig\<close>
  on such a mapping is an error list that contains this string, so there is no valid
  configuration.
\<close>

theorem missing_required_setting:
  assumes "(k, e) \<in> set (trainingStateSchema env)" and "isRequired e" and "cfg k = None"
  shows "(\<forall>c. validateEntry env k (e\<lparr>check := c\<rparr>) (getProperty cfg k)
            = Inr (EntryError
                (''Missing required setting '' @ [CHR 0x27] @ k @ [CHR 0x27] @ '' of type ''
                   @ type e @ '' ('' @ description e @ '')'')))
       \<and> fieldErrors env cfg (k, e)
            = [''Missing required setting '' @ [CHR 0x27] @ k @ [CHR 0x27] @ '' of type ''
                   @ type e @ '' ('' @ description e @ '')'']
       \<and> (\<forall>c. validateAgainst env (replaceCheck k c (trainingStateSchema env)) cfg
            = validateConfig env cfg)
       \<and> (\<forall>r. validateConfig env cfg = Inr r \<longrightarrow>
            (\<exists>es. r = StateErrors es \<and>
               ''Missing required setting '' @ [CHR 0x27] @ k @ [CHR 0x27] @ '' of type ''
                   @ type e @ '' ('' @ description e @ '')'' \<in> set es))"
proof -
  from assms(3) have undef: "getProperty cfg k = JUndefined" by (simp add: getProperty_def)
  have entry: "validateEntry env k (e\<lparr>check := c\<rparr>) (getProperty cfg k)
            = Inr (EntryError (missingMessage k e))" for c
    using assms(2) by (simp add: undef validateEntry_undefined missingMessage_def)
  have errs: "fieldErrors env cfg (k, e) = [missingMessage k e]"
    using assms(2) by (simp add: fieldErrors_def fieldOutcome_def undef validateEntry_undefined)
  have same: "validateAgainst env (replaceCheck k c (trainingStateSchema env)) cfg
            = validateConfig env cfg" for c
    unfolding validateConfig_def
    by (rule validateAgainst_replaceCheck) (simp add: undef validateEntry_undefined missingMessage_def defaultValueBang_def)
  have res: "\<exists>es. r = StateErrors es \<and> missingMessage k e \<in> set es"
    if "validateConfig env cfg = Inr r" for r
    using validateConfig_error_member [OF assms(1) errs that] .
  from entry errs same res show ?thesis
    unfolding missingMessage_def by (intro conjI allI impI)
qed

theorem missing_required_setting_witness:
  "missingFileConfig ''challengeFile'' = None
   \<and> validateEntry sampleEnv ''challengeFile''
        (snd (trainingStateSchema sampleEnv ! 3)\<lparr>check := throwingCheck\<rparr>)
        (getProperty missingFileConfig ''challengeFile'')
      = Inr (EntryError (''Missing required setting '' @ [CHR 0x27] @ ''challengeFile'' @ [CHR 0x27]
           @ '' of type string (Path to the file containing the textual data.)''))
   \<and> validateAgainst sampleEnv
        (replaceCheck ''challengeFile'' throwingCheck (trainingStateSchema sampleEnv))
        missingFileConfig
      = validateConfig sampleEnv missingFileConfig
   \<and> validateConfig sampleEnv missingFileConfig
      = Inr (StateErrors [''Missing required setting '' @ [CHR 0x27] @ ''challengeFile'' @ [CHR 0x27]
           @ '' of type string (Path to the file containing the textual data.)''])"
proof -
  let ?e = "snd (trainingStateSchema sampleEnv ! 3)"
  have mem: "(''challengeFile'', ?e) \<in> set (trainingStateSchema sampleEnv)"
    by (simp add: trainingStateSchema_def)
  have req: "isRequired ?e" by (simp add: trainingStateSchema_def)
  have absent: "missingFileConfig ''challengeFile'' = None"
    by (simp add: missingFileConfig_def)
  have fields: "type ?e = ''string''"
    "description ?e = ''Path to the file containing the textual data.''"
    by (simp_all add: trainingStateSchema_def)
  have run: "validateConfig sampleEnv missingFileConfig
      = Inr (StateErrors [''Missing required setting '' @ [CHR 0x27] @ ''challengeFile'' @ [CHR 0x27]
           @ '' of type string (Path to the file containing the textual data.)''])"
    by (simp add: eval_defs missingFileConfig_def)
  from missing_required_setting
         [where k = "''challengeFile''" and e = ?e and env = sampleEnv and cfg = missingFileConfig,
          OF mem req absent]
    absent run fields
  show ?thesis by simp
qed

subsection \<open>C5: an optional key that is absent\<close>

text \<open>
  Claim C5. For every declared key that is not required and every raw mapping in which
  the key is absent, the entry validation that \<^verbatim>\<open>validateConfig\<close> performs for the key
  yields the \<^verbatim>\<open>defaultValue\<close> of the schema entry as it stands, whatever checker the entry
  has: the checker is not invoked. A valid result holds this default under the key. In
  particular a valid result for a mapping without challengeIndex and maxAttempts has
  challengeIndex = 0 and maxAttempts = 3.
\<close>

theorem absent_optional_setting:
  "(\<forall>k e. (k, e) \<in> set (trainingStateSchema env) \<and> \<not> isRequired e \<and> cfg k = None \<longrightarrow>
      (\<exists>d. defaultValue e = Some d
         \<and> (\<forall>c. validateEntry env k (e\<lparr>check := c\<rparr>) (getProperty cfg k) = Inr (EntryValid d))
         \<and> fieldValues env cfg (k, e) = [(k, d)]
         \<and> (\<forall>c. validateAgainst env (replaceCheck k c (trainingStateSchema env)) cfg
                = validateConfig env cfg)
         \<and> (\<forall>res. validateConfig env cfg = Inr (StateValid res) \<longrightarrow> map_of res k = Some d)))
   \<and> (cfg ''challengeIndex'' = None \<and> cfg ''maxAttempts'' = None \<longrightarrow>
        (\<forall>res. validateConfig env cfg = Inr (StateValid res) \<longrightarrow>
           map_of res ''challengeIndex'' = Some (JNumber (Finite 0)) \<and>
           map_of res ''maxAttempts'' = Some (JNumber (Finite 3))))"
proof -
  have general: "\<exists>d. defaultValue e = Some d
         \<and> (\<forall>c. validateEntry env k (e\<lparr>check := c\<rparr>) (getProperty cfg k) = Inr (EntryValid d))
         \<and> fieldValues env cfg (k, e) = [(k, d)]
         \<and> (\<forall>c. validateAgainst env (replaceCheck k c (trainingStateSchema env)) cfg
                = validateConfig env cfg)
         \<and> (\<forall>res. validateConfig env cfg = Inr (StateValid res) \<longrightarrow> map_of res k = Some d)"
    if mem: "(k, e) \<in> set (trainingStateSchema env)" and opt: "\<not> isRequired e"
      and absent: "cfg k = None" for k e
  proof -
    from absent have undef: "getProperty cfg k = JUndefined" by (simp add: getProperty_def)
    from optional_has_default [OF mem opt] obtain d where d: "defaultValue e = Some d" by blast
    have entry: "validateEntry env k (e\<lparr>check := c\<rparr>) (getProperty cfg k) = Inr (EntryValid d)" for c
      using opt d by (simp add: undef validateEntry_undefined defaultValueBang_def)
    have vals: "fieldValues env cfg (k, e) = [(k, d)]"
      using opt d
      by (simp add: fieldValues_def fieldOutcome_def undef validateEntry_undefined defaultValueBang_def)
    have same: "validateAgainst env (replaceCheck k c (trainingStateSchema env)) cfg
            = validateConfig env cfg" for c
      unfolding validateConfig_def
      by (rule validateAgainst_replaceCheck)
         (simp add: undef validateEntry_undefined missingMessage_def defaultValueBang_def)
    have res: "map_of res k = Some d" if "validateConfig env cfg = Inr (StateValid res)" for res
      using validateConfig_value_lookup [OF mem vals that] .
    from d entry vals same res show ?thesis by (intro exI [of _ d] conjI allI impI)
  qed
  have ci: "(''challengeIndex'', snd (trainingStateSchema env ! 2)) \<in> set (trainingStateSchema env)"
    "\<not> isRequired (snd (trainingStateSchema env ! 2))"
    "defaultValue (snd (trainingStateSchema env ! 2)) = Some (JNumber (Finite 0))"
    by (simp_all add: trainingStateSchema_def)
  have ma: "(''maxAttempts'', snd (trainingStateSchema env ! 4)) \<in> set (trainingStateSchema env)"
    "\<not> isRequired (snd (trainingStateSchema env ! 4))"
    "defaultValue (snd (trainingStateSchema env ! 4)) = Some (JNumber (Finite 3))"
    by (simp_all add: trainingStateSchema_def)
  have concrete: "map_of res ''challengeIndex'' = Some (JNumber (Finite 0)) \<and>
           map_of res ''maxAttempts'' = Some (JNumber (Finite 3))"
    if "cfg ''challengeIndex'' = None \<and> cfg ''maxAttempts'' = None"
      and "validateConfig env cfg = Inr (StateValid res)" for res
    using general [OF ci(1) ci(2)] general [OF ma(1) ma(2)] that ci(3) ma(3) by auto
  show ?thesis
  proof (intro conjI allI impI)
    fix k e
    assume "(k, e) \<in> set (trainingStateSchema env) \<and> \<not> isRequired e \<and> cfg k = None"
    then show "\<exists>d. defaultValue e = Some d
         \<and> (\<forall>c. validateEntry env k (e\<lparr>check := c\<rparr>) (getProperty cfg k) = Inr (EntryValid d))
         \<and> fieldValues env cfg (k, e) = [(k, d)]
         \<and> (\<forall>c. validateAgainst env (replaceCheck k c (trainingStateSchema env)) cfg
                = validateConfig env cfg)
         \<and> (\<forall>res. validateConfig env cfg = Inr (StateValid res) \<longrightarrow> map_of res k = Some d)"
      using general by blast
  next
    fix res
    assume "cfg ''challengeIndex'' = None \<and> cfg ''maxAttempts'' = None"
      and "validateConfig env cfg = Inr (StateValid res)"
    then show "map_of res ''challengeIndex'' = Some (JNumber (Finite 0))"
      and "map_of res ''maxAttempts'' = Some (JNumber (Finite 3))"
      using concrete by blast+
  qed
qed

theorem absent_optional_setting_witness:
  "exampleConfig ''challengeIndex'' = None \<and> exampleConfig ''maxAttempts'' = None
   \<and> validateAgainst sampleEnv
        (replaceCheck ''maxAttempts'' throwingCheck (trainingStateSchema sampleEnv))
        exampleConfig
      = validateConfig sampleEnv exampleConfig
   \<and> validateConfig sampleEnv exampleConfig
      = Inr (StateValid [(''winProbability'', JNumber (Finite 0.5)),
                         (''fragmentLength'', JNumber (Finite 80)),
                         (''challengeIndex'', JNumber (Finite 0)),
                         (''challengeFile'', JString ''./example_text.txt''),
                         (''maxAttempts'', JNumber (Finite 3))])
   \<and> map_of [(''winProbability'', JNumber (Finite 0.5)),
              (''fragmentLength'', JNumber (Finite 80)),
              (''challengeIndex'', JNumber (Finite 0)),
              (''challengeFile'', JString ''./example_text.txt''),
              (''maxAttempts'', JNumber (Finite 3))] ''maxAttempts''
      = Some (JNumber (Finite 3))"
proof -
  let ?e = "snd (trainingStateSchema sampleEnv ! 4)"
  have mem: "(''maxAttempts'', ?e) \<in> set (trainingStateSchema sampleEnv)"
    and opt: "\<not> isRequired ?e"
    by (simp_all add: trainingStateSchema_def)
  have absent: "exampleConfig ''challengeIndex'' = None" "exampleConfig ''maxAttempts'' = None"
    by (simp_all add: exampleConfig_def)
  have run: "validateConfig sampleEnv exampleConfig
      = Inr (StateValid [(''winProbability'', JNumber (Finite 0.5)),
                         (''fragmentLength'', JNumber (Finite 80)),
                         (''challengeIndex'', JNumber (Finite 0)),
                         (''challengeFile'', JString ''./example_text.txt''),
                         (''maxAttempts'', JNumber (Finite 3))])"
    by (simp add: eval_defs exampleConfig_def)
  from absent_optional_setting [of sampleEnv exampleConfig] mem opt absent(2)
  have "validateAgainst sampleEnv
        (replaceCheck ''maxAttempts'' throwingCheck (trainingStateSchema sampleEnv))
        exampleConfig
      = validateConfig sampleEnv exampleConfig"
    by blast
  with absent run show ?thesis by simp
qed

subsection \<open>C6: a value of the wrong type\<close>

text \<open>
  Claim C6 says that a key present with a value of another runtime type than the declared
  one yields the \<^verbatim>\<open>Invalid type\<close> error. A key that is present with the value
  \<^verbatim>\<open>undefined\<close> has the runtime type \<^verbatim>\<open>'undefined'\<close>, which matches no declared
  type; the guard \<^verbatim>\<open>typeof entryValue === 'undefined'\<close> comes first, so the entry is
  handled as a missing one and no \<^verbatim>\<open>Invalid type\<close> error is emitted.
\<close>

theorem type_mismatch_undefined_counterexample:
  "undefinedConfig ''winProbability'' = Some JUndefined
   \<and> typeof JUndefined \<noteq> type (snd (trainingStateSchema sampleEnv ! 0))
   \<and> validateConfig sampleEnv undefinedConfig
      = Inr (StateErrors [''Missing required setting '' @ [CHR 0x27] @ ''winProbability''
           @ [CHR 0x27] @ '' of type number (Probability of winning on each challenge that the program should aim for.)''])
   \<and> validateConfig sampleEnv undefinedConfig
      \<noteq> Inr (StateErrors [''Invalid type of winProbability, expected a number, but got: undefined''])"
  by (simp add: eval_defs undefinedConfig_def exampleConfig_def)

text \<open>
  Claim C6, amended. For every declared key and every raw mapping in which the key is
  present with a value other than \<^verbatim>\<open>undefined\<close>, whose runtime type does not match the
  declared type and whose conversion to a string yields \<open>shown\<close>, the entry validation
  that \<^verbatim>\<open>validateConfig\<close> performs for the key yields exactly the error
  \<^verbatim>\<open>Invalid type of <key>, expected a <type>, but got: <shown>\<close>, whatever checker the
  entry has: the checker is not invoked. Every result of \<^verbatim>\<open>validateConfig\<close> on such a
  mapping is an error list that contains this string.
\<close>

theorem type_mismatch_message:
  assumes "(k, e) \<in> set (trainingStateSchema env)" and "cfg k = Some v"
    and "v \<noteq> JUndefined" and "typeof v \<noteq> type e" and "toString env v = Inr shown"
  shows "(\<forall>c. validateEntry env k (e\<lparr>check := c\<rparr>) (getProperty cfg k)
            = Inr (EntryError
                (''Invalid type of '' @ k @ '', expected a '' @ type e @ '', but got: '' @ shown)))
       \<and> fieldErrors env cfg (k, e)
            = [''Invalid type of '' @ k @ '', expected a '' @ type e @ '', but got: '' @ shown]
       \<and> (\<forall>c. validateAgainst env (replaceCheck k c (trainingStateSchema env)) cfg
            = validateConfig env cfg)
       \<and> (\<forall>r. validateConfig env cfg = Inr r \<longrightarrow>
            (\<exists>es. r = StateErrors es \<and>
               ''Invalid type of '' @ k @ '', expected a '' @ type e @ '', but got: '' @ shown
                 \<in> set es))"
proof -
  from assms(2) have val: "getProperty cfg k = v" by (simp add: getProperty_def)
  have any: "validateEntry env k e' v = Inr (EntryError (invalidTypeMessage k e shown))"
    if "type e' = type e" for e'
    using validateEntry_mismatch [of v e' env k] assms(3,4,5) that
    by (simp add: invalidTypeMessage_def)
  have entry: "validateEntry env k (e\<lparr>check := c\<rparr>) (getProperty cfg k)
            = Inr (EntryError (invalidTypeMessage k e shown))" for c
    by (simp add: val any)
  have errs: "fieldErrors env cfg (k, e) = [invalidTypeMessage k e shown]"
    by (simp add: fieldErrors_def fieldOutcome_def val any)
  have same: "validateAgainst env (replaceCheck k c (trainingStateSchema env)) cfg
            = validateConfig env cfg" for c
    unfolding validateConfig_def
  proof (rule validateAgainst_replaceCheck)
    fix e' assume "(k, e') \<in> set (trainingStateSchema env)"
    with assms(1) have "e' = e"
      using eq_key_imp_eq_value [OF schema_distinct] by blast
    then show "validateEntry env k (e'\<lparr>check := c\<rparr>) (getProperty cfg k)
                 = validateEntry env k e' (getProperty cfg k)"
      by (simp add: val any)
  qed
  have res: "\<exists>es. r = StateErrors es \<and> invalidTypeMessage k e shown \<in> set es"
    if "validateConfig env cfg = Inr r" for r
    using validateConfig_error_member [OF assms(1) errs that] .
  from entry errs same res show ?thesis
    unfolding invalidTypeMessage_def by (intro conjI allI impI)
qed

theorem type_mismatch_message_witness:
  "mistypedConfig ''fragmentLength'' = Some (JString ''eighty'')
   \<and> typeof (JString ''eighty'') = ''string''
   \<and> type (snd (trainingStateSchema sampleEnv ! 1)) = ''number''
   \<and> validateAgainst sampleEnv
        (replaceCheck ''fragmentLength'' throwingCheck (trainingStateSchema sampleEnv))
        mistypedConfig
      = validateConfig sampleEnv mistypedConfig
   \<and> validateConfig sampleEnv mistypedConfig
      = Inr (StateErrors [''Invalid type of fragmentLength, expected a number, but got: eighty''])"
proof -
  let ?e = "snd (trainingStateSchema sampleEnv ! 1)"
  have mem: "(''fragmentLength'', ?e) \<in> set (trainingStateSchema sampleEnv)"
    and ty: "type ?e = ''number''"
    by (simp_all add: trainingStateSchema_def)
  have present: "mistypedConfig ''fragmentLength'' = Some (JString ''eighty'')"
    by (simp add: mistypedConfig_def)
  have ne: "JString ''eighty'' \<noteq> JUndefined" by simp
  have mismatch: "typeof (JString ''eighty'') \<noteq> type ?e"
    by (simp add: trainingStateSchema_def)
  have shown: "toString sampleEnv (JString ''eighty'') = Inr ''eighty''" by simp
  have run: "validateConfig sampleEnv mistypedConfig
      = Inr (StateErrors [''Invalid type of fragmentLength, expected a number, but got: eighty''])"
    by (simp add: eval_defs mistypedConfig_def exampleConfig_def)
  from type_mismatch_message
         [where k = "''fragmentLength''" and e = ?e and env = sampleEnv
            and cfg = mistypedConfig and v = "JString ''eighty''" and shown = "''eighty''",
          OF mem present ne mismatch shown]
    present ty run
  show ?thesis by simp
qed

subsection \<open>C7: the checker of fragmentLength\<close>



subsection \<open>C8: exceptions\<close>

text \<open>
  Claim C8 says that \<^verbatim>\<open>validateConfig\<close> never throws. The branch of
  \<^verbatim>\<open>validateEntry\<close> for a value of the wrong type builds its message with
  \<^verbatim>\<open>${entryValue}\<close>, and this conversion throws a \<^verbatim>\<open>TypeError\<close> for a symbol and for
  an object without a string conversion. With such a value under a declared key
  \<^verbatim>\<open>validateConfig\<close> ends with the exception and returns no error list. (By
  \<open>validateConfig_returns_iff\<close> these are the only mappings for which it does not
  return.)
\<close>

theorem validateConfig_throws_TypeError:
  "validateConfig sampleEnv symbolConfig = Inl TypeError
   \<and> validateConfig sampleEnv (exampleConfig(''maxAttempts'' \<mapsto> JObject None)) = Inl TypeError"
  by (simp add: eval_defs symbolConfig_def exampleConfig_def)

subsection \<open>C9: keys outside the schema have no effect\<close>

text \<open>
  Claim C9. Two raw mappings that agree on the values of the five declared keys, validated
  with the same existence probe, yield the same: a key that the schema registry does not
  declare has no effect on the outcome.
\<close>

theorem validateConfig_ignores_undeclared_keys:
  assumes "\<forall>k \<in> set (map fst (trainingStateSchema env)). getProperty c1 k = getProperty c2 k"
  shows "validateConfig env c1 = validateConfig env c2"
  using validateLoop_cong [OF assms]
  by (simp add: validateConfig_def validateAgainst_def)

theorem validateConfig_ignores_undeclared_keys_witness:
  "validateConfig sampleEnv (exampleConfig(''comment'' \<mapsto> JString ''not a setting''))
     = validateConfig sampleEnv exampleConfig
   \<and> validateConfig sampleEnv exampleConfig
     = Inr (StateValid [(''winProbability'', JNumber (Finite 0.5)),
                        (''fragmentLength'', JNumber (Finite 80)),
                        (''challengeIndex'', JNumber (Finite 0)),
                        (''challengeFile'', JString ''./example_text.txt''),
                        (''maxAttempts'', JNumber (Finite 3))])"
proof -
  have agree: "\<forall>k \<in> set (map fst (trainingStateSchema sampleEnv)).
      getProperty (exampleConfig(''comment'' \<mapsto> JString ''not a setting'')) k
        = getProperty exampleConfig k"
    by (simp add: trainingStateSchema_def getProperty_def)
  have run: "validateConfig sampleEnv exampleConfig
     = Inr (StateValid [(''winProbability'', JNumber (Finite 0.5)),
                        (''fragmentLength'', JNumber (Finite 80)),
                        (''challengeIndex'', JNumber (Finite 0)),
                        (''challengeFile'', JString ''./example_text.txt''),
                        (''maxAttempts'', JNumber (Finite 3))])"
    by (simp add: eval_defs exampleConfig_def)
  from validateConfig_ignores_undeclared_keys [OF agree] run show ?thesis by simp
qed

subsection \<open>C10: a key present with the value undefined\<close>

text \<open>
  Claim C10. For every declared key, a raw mapping in which the key is present with the
  value \<^verbatim>\<open>undefined\<close> is validated as the mapping in which the key is absent:
  \<^verbatim>\<open>validateConfig\<close> yields the same for both, the entry validation of a required key
  yields the missing-required-setting error and that of an optional key its
  \<^verbatim>\<open>defaultValue\<close>, and the checker of the key is invoked in neither case.
\<close>

theorem undefined_value_as_absent:
  assumes "(k, e) \<in> set (trainingStateSchema env)"
  shows "validateConfig env (cfg(k \<mapsto> JUndefined)) = validateConfig env (cfg(k := None))
       \<and> (\<forall>c. validateAgainst env (replaceCheck k c (trainingStateSchema env)) (cfg(k \<mapsto> JUndefined))
              = validateConfig env (cfg(k \<mapsto> JUndefined)))
       \<and> (\<forall>c. validateAgainst env (replaceCheck k c (trainingStateSchema env)) (cfg(k := None))
              = validateConfig env (cfg(k := None)))
       \<and> (isRequired e \<longrightarrow>
            (\<forall>c. validateEntry env k (e\<lparr>check := c\<rparr>) (getProperty (cfg(k \<mapsto> JUndefined)) k)
                   = Inr (EntryError (missingMessage k e))
                \<and> validateEntry env k (e\<lparr>check := c\<rparr>) (getProperty (cfg(k := None)) k)
                   = Inr (EntryError (missingMessage k e))))
       \<and> (\<not> isRequired e \<longrightarrow>
            (\<exists>d. defaultValue e = Some d \<and>
              (\<forall>c. validateEntry env k (e\<lparr>check := c\<rparr>) (getProperty (cfg(k \<mapsto> JUndefined)) k)
                     = Inr (EntryValid d)
                  \<and> validateEntry env k (e\<lparr>check := c\<rparr>) (getProperty (cfg(k := None)) k)
                     = Inr (EntryValid d))))"
proof -
  have u1: "getProperty (cfg(k \<mapsto> JUndefined)) k = JUndefined"
    and u2: "getProperty (cfg(k := None)) k = JUndefined"
    by (simp_all add: getProperty_def)
  have agree: "\<forall>k' \<in> set (map fst (trainingStateSchema env)).
      getProperty (cfg(k \<mapsto> JUndefined)) k' = getProperty (cfg(k := None)) k'"
    by (simp add: getProperty_def)
  have eq: "validateConfig env (cfg(k \<mapsto> JUndefined)) = validateConfig env (cfg(k := None))"
    using validateLoop_cong [OF agree] by (simp add: validateConfig_def validateAgainst_def)
  have same1: "validateAgainst env (replaceCheck k c (trainingStateSchema env)) (cfg(k \<mapsto> JUndefined))
              = validateConfig env (cfg(k \<mapsto> JUndefined))" for c
    unfolding validateConfig_def
    by (rule validateAgainst_replaceCheck)
       (simp add: u1 validateEntry_undefined missingMessage_def defaultValueBang_def)
  have same2: "validateAgainst env (replaceCheck k c (trainingStateSchema env)) (cfg(k := None))
              = validateConfig env (cfg(k := None))" for c
    unfolding validateConfig_def
    by (rule validateAgainst_replaceCheck)
       (simp add: u2 validateEntry_undefined missingMessage_def defaultValueBang_def)
  have req: "validateEntry env k (e\<lparr>check := c\<rparr>) (getProperty (cfg(k \<mapsto> JUndefined)) k)
                   = Inr (EntryError (missingMessage k e))
                \<and> validateEntry env k (e\<lparr>check := c\<rparr>) (getProperty (cfg(k := None)) k)
                   = Inr (EntryError (missingMessage k e))" if "isRequired e" for c
    using that by (simp add: u1 u2 validateEntry_undefined missingMessage_def)
  have opt: "\<exists>d. defaultValue e = Some d \<and>
              (\<forall>c. validateEntry env k (e\<lparr>check := c\<rparr>) (getProperty (cfg(k \<mapsto> JUndefined)) k)
                     = Inr (EntryValid d)
                  \<and> validateEntry env k (e\<lparr>check := c\<rparr>) (getProperty (cfg(k := None)) k)
                     = Inr (EntryValid d))" if "\<not> isRequired e"
  proof -
    from optional_has_default [OF assms that] obtain d where d: "defaultValue e = Some d" by blast
    with that show ?thesis
      by (simp add: u1 u2 validateEntry_undefined defaultValueBang_def)
  qed
  from req have req': "isRequired e \<longrightarrow>
            (\<forall>c. validateEntry env k (e\<lparr>check := c\<rparr>) (getProperty (cfg(k \<mapsto> JUndefined)) k)
                   = Inr (EntryError (missingMessage k e))
                \<and> validateEntry env k (e\<lparr>check := c\<rparr>) (getProperty (cfg(k := None)) k)
                   = Inr (EntryError (missingMessage k e)))"
    by blast
  from opt have opt': "\<not> isRequired e \<longrightarrow>
            (\<exists>d. defaultValue e = Some d \<and>
              (\<forall>c. validateEntry env k (e\<lparr>check := c\<rparr>) (getProperty (cfg(k \<mapsto> JUndefined)) k)
                     = Inr (EntryValid d)
                  \<and> validateEntry env k (e\<lparr>check := c\<rparr>) (getProperty (cfg(k := None)) k)
                     = Inr (EntryValid d)))"
    by blast
  from same1 have s1: "\<forall>c. validateAgainst env (replaceCheck k c (trainingStateSchema env)) (cfg(k \<mapsto> JUndefined))
              = validateConfig env (cfg(k \<mapsto> JUndefined))" by blast
  from same2 have s2: "\<forall>c. validateAgainst env (replaceCheck k c (trainingStateSchema env)) (cfg(k := None))
              = validateConfig env (cfg(k := None))" by blast
  show ?thesis
    by (rule conjI [OF eq conjI [OF s1 conjI [OF s2 conjI [OF req' opt']]]])
qed

theorem undefined_value_as_absent_witness:
  "validateConfig sampleEnv (exampleConfig(''challengeFile'' \<mapsto> JUndefined))
     = validateConfig sampleEnv (exampleConfig(''challengeFile'' := None))
   \<and> validateConfig sampleEnv (exampleConfig(''challengeFile'' \<mapsto> JUndefined))
     = Inr (StateErrors [''Missing required setting '' @ [CHR 0x27] @ ''challengeFile'' @ [CHR 0x27]
           @ '' of type string (Path to the file containing the textual data.)''])
   \<and> validateAgainst sampleEnv
        (replaceCheck ''challengeFile'' throwingCheck (trainingStateSchema sampleEnv))
        (exampleConfig(''challengeFile'' \<mapsto> JUndefined))
      = validateConfig sampleEnv (exampleConfig(''challengeFile'' \<mapsto> JUndefined))"
proof -
  let ?e = "snd (trainingStateSchema sampleEnv ! 3)"
  have mem: "(''challengeFile'', ?e) \<in> set (trainingStateSchema sampleEnv)"
    by (simp add: trainingStateSchema_def)
  have run: "validateConfig sampleEnv (exampleConfig(''challengeFile'' \<mapsto> JUndefined))
     = Inr (StateErrors [''Missing required setting '' @ [CHR 0x27] @ ''challengeFile'' @ [CHR 0x27]
           @ '' of type string (Path to the file containing the textual data.)''])"
    by (simp add: eval_defs exampleConfig_def)
  from undefined_value_as_absent
         [where k = "''challengeFile''" and e = ?e and env = sampleEnv and cfg = exampleConfig,
          OF mem]
  have "validateConfig sampleEnv (exampleConfig(''challengeFile'' \<mapsto> JUndefined))
     = validateConfig sampleEnv (exampleConfig(''challengeFile'' := None))"
    and "validateAgainst sampleEnv
        (replaceCheck ''challengeFile'' throwingCheck (trainingStateSchema sampleEnv))
        (exampleConfig(''challengeFile'' \<mapsto> JUndefined))
      = validateConfig sampleEnv (exampleConfig(''challengeFile'' \<mapsto> JUndefined))"
    by blast+
  with run show ?thesis by simp
qed

end
